theory Spec2Isabelle
  imports Main "HOL-Library.Word"
begin

section \<open>Utilities::MPI::Partitioner (include/deal.II/base/partitioner.h)\<close>

text \<open>
  The embedding follows the inline member functions of the header. Three things the header
  uses are declared in files outside the sources and are kept as parameters:
  \<^item> \<open>types::global_dof_index\<close> (base/types.h), an unsigned integer type: the functions
    are stated for \<open>'g word\<close> at every width \<open>'g\<close>;
  \<^item> the macros \<open>Assert\<close> and \<open>AssertIndexRange\<close> (base/exceptions.h), which check
    their condition in debug mode only (the comment in \<open>global_to_local\<close> speaks of what
    happens "in optimized mode"): the field \<open>debug\<close> of a \<open>config\<close>;
  \<^item> the constant \<open>numbers::invalid_unsigned_int\<close> (base/types.h): the field
    \<open>invalid_unsigned_int\<close> of a \<open>config\<close>.
  \<open>unsigned int\<close> is a 32-bit word.
\<close>

type_synonym unsigned_int = "32 word"

record config =
  debug :: bool
  invalid_unsigned_int :: unsigned_int

text \<open>
  The exceptions of the header (\<open>ExcNotImplemented\<close>, \<open>ExcIndexNotPresent\<close>,
  \<open>ExcIndexRange\<close> behind \<open>AssertIndexRange\<close>), the failures the specification names for
  attaching ghost indices, and \<open>NoSuchElement\<close> for an element number past the end of an
  index set. The parameter \<open>'i\<close> is the type of global indices.
\<close>

datatype 'i error =
    ExcNotImplemented
  | ExcIndexNotPresent 'i unsigned_int
  | ExcIndexRange unsigned_int unsigned_int unsigned_int
  | NoSuchElement
  | AlreadyFinalized
  | GhostOverlapsOwned
  | GhostNotInSuperset

subsection \<open>IndexSet\<close>

text \<open>
  Modelled from the spec: the class IndexSet (base/index_set.h) is not among the sources.
  The specification describes it as an ordered set of non-negative integers with a
  membership test, the rank of an index within the set and the n-th element. It is a set
  of global indices here; a set of words is finite, and its order is the order of the
  indices.
\<close>

type_synonym 'i IndexSet = "'i set"

text \<open>Modelled from the spec: \<open>IndexSet::is_element\<close>, the membership test.\<close>

definition is_element :: "'g::len word IndexSet \<Rightarrow> 'g word \<Rightarrow> bool" where
  "is_element s g = (g \<in> s)"

text \<open>Modelled from the spec: \<open>IndexSet::n_elements\<close>, the number of indices of the set.\<close>

definition n_elements :: "'g::len word IndexSet \<Rightarrow> nat" where
  "n_elements s = card s"

text \<open>
  Modelled from the spec: \<open>IndexSet::index_within_set\<close>, the rank of an index within the
  set: how many elements of the set are smaller. The result has the type of a global
  index.
\<close>

definition index_within_set :: "'g::len word IndexSet \<Rightarrow> 'g word \<Rightarrow> 'g word" where
  "index_within_set s g = of_nat (card {x \<in> s. x < g})"

text \<open>
  Modelled from the spec: \<open>IndexSet::nth_index_in_set\<close>, the n-th element in ascending
  order, counted from 0. The specification gives no result for a number past the end of
  the set: that is \<open>None\<close>.
\<close>

definition nth_index_in_set :: "'g::len word IndexSet \<Rightarrow> 'g word \<Rightarrow> 'g word option" where
  "nth_index_in_set s n =
     (if unat n < card s then Some (sorted_list_of_set s ! unat n) else None)"

subsection \<open>The class and its inline member functions\<close>

text \<open>
  The private data members of \<open>Partitioner\<close>, in the order of the header. \<open>'i\<close> is the type
  of global indices and \<open>'comm\<close> the type \<open>MPI_Comm\<close> of the communicator handle.
\<close>

record ('i, 'comm) Partitioner =
  global_size :: 'i
  locally_owned_range_data :: "'i IndexSet"
  local_range_data :: "'i \<times> 'i"
  ghost_indices_data :: "'i IndexSet"
  n_ghost_indices_data :: unsigned_int
  ghost_targets_data :: "(unsigned_int \<times> unsigned_int) list"
  import_indices_data :: "(unsigned_int \<times> unsigned_int) list"
  n_import_indices_data :: unsigned_int
  import_targets_data :: "(unsigned_int \<times> unsigned_int) list"
  import_indices_chunks_by_rank_data :: "unsigned_int list"
  n_ghost_indices_in_larger_set :: unsigned_int
  ghost_indices_subset_chunks_by_rank_data :: "unsigned_int list"
  ghost_indices_subset_data :: "(unsigned_int \<times> unsigned_int) list"
  my_pid :: unsigned_int
  n_procs :: unsigned_int
  communicator :: 'comm
  have_ghost_indices :: bool

definition local_range :: "('g::len word, 'c) Partitioner \<Rightarrow> 'g word \<times> 'g word" where
  "local_range p = local_range_data p"

text \<open>
  \<open>local_size\<close>: the difference is taken in the type of global indices (it wraps there),
  the assertion compares it with \<open>std::numeric_limits<unsigned int>::max()\<close> by value, and
  the result is the difference narrowed to \<open>unsigned int\<close>.
\<close>

definition local_size :: "config \<Rightarrow> ('g::len word, 'c) Partitioner \<Rightarrow> 'g word error + unsigned_int" where
  "local_size cfg p =
     (let size = snd (local_range_data p) - fst (local_range_data p) in
      if debug cfg \<and> \<not> (unat size \<le> unat (- 1 :: unsigned_int)) then Inl ExcNotImplemented
      else Inr (ucast size))"

definition in_local_range :: "('g::len word, 'c) Partitioner \<Rightarrow> 'g word \<Rightarrow> bool" where
  "in_local_range p global_index =
     (fst (local_range_data p) \<le> global_index \<and> global_index < snd (local_range_data p))"

definition ghost_indices :: "('g::len word, 'c) Partitioner \<Rightarrow> 'g word IndexSet" where
  "ghost_indices p = ghost_indices_data p"

definition is_ghost_entry :: "('g::len word, 'c) Partitioner \<Rightarrow> 'g word \<Rightarrow> bool" where
  "is_ghost_entry p global_index =
     (if in_local_range p global_index = True then False
      else is_element (ghost_indices p) global_index)"

text \<open>
  \<open>global_to_local\<close>: the assertion first (debug mode only), then the three branches. The
  owned branch narrows \<open>global_index - local_range_data.first\<close> to \<open>unsigned int\<close>; the ghost
  branch adds, in \<open>unsigned int\<close>, \<open>local_size()\<close> and the narrowed rank.
\<close>

definition global_to_local ::
  "config \<Rightarrow> ('g::len word, 'c) Partitioner \<Rightarrow> 'g word \<Rightarrow> 'g word error + unsigned_int" where
  "global_to_local cfg p global_index =
     (if debug cfg \<and> \<not> (in_local_range p global_index \<or> is_ghost_entry p global_index)
      then Inl (ExcIndexNotPresent global_index (my_pid p))
      else if in_local_range p global_index
      then Inr (ucast (global_index - fst (local_range_data p)))
      else if is_ghost_entry p global_index
      then (case local_size cfg p of
              Inl e \<Rightarrow> Inl e
            | Inr n \<Rightarrow> Inr (n + ucast (index_within_set (ghost_indices_data p) global_index)))
      else Inr (invalid_unsigned_int cfg))"

text \<open>
  \<open>AssertIndexRange (index, range)\<close> is \<open>Assert (index < range, ExcIndexRange (index, 0,
  range))\<close>; its range \<open>local_size() + n_ghost_indices_data\<close> is a sum of two \<open>unsigned int\<close>.
\<close>

definition AssertIndexRange ::
  "config \<Rightarrow> unsigned_int \<Rightarrow> 'i error + unsigned_int \<Rightarrow> 'i error + 'a \<Rightarrow> 'i error + 'a" where
  "AssertIndexRange cfg idx rng k =
     (if debug cfg then
        (case rng of
           Inl e \<Rightarrow> Inl e
         | Inr r \<Rightarrow> if idx < r then k else Inl (ExcIndexRange idx 0 r))
      else k)"

definition local_to_global ::
  "config \<Rightarrow> ('g::len word, 'c) Partitioner \<Rightarrow> unsigned_int \<Rightarrow> 'g word error + 'g word" where
  "local_to_global cfg p local_index =
     AssertIndexRange cfg local_index
       (case local_size cfg p of Inl e \<Rightarrow> Inl e | Inr n \<Rightarrow> Inr (n + n_ghost_indices_data p))
       (case local_size cfg p of
          Inl e \<Rightarrow> Inl e
        | Inr n \<Rightarrow>
            if local_index < n then Inr (fst (local_range_data p) + ucast local_index)
            else (case nth_index_in_set (ghost_indices_data p) (ucast (local_index - n)) of
                    None \<Rightarrow> Inl NoSuchElement
                  | Some g \<Rightarrow> Inr g))"

definition n_ghost_indices :: "('g::len word, 'c) Partitioner \<Rightarrow> unsigned_int" where
  "n_ghost_indices p = n_ghost_indices_data p"


definition get_communicator :: "('g::len word, 'c) Partitioner \<Rightarrow> 'c" where
  "get_communicator p = communicator p"

definition get_mpi_communicator :: "('g::len word, 'c) Partitioner \<Rightarrow> 'c" where
  "get_mpi_communicator p = communicator p"

definition ghost_indices_initialized :: "('g::len word, 'c) Partitioner \<Rightarrow> bool" where
  "ghost_indices_initialized p = have_ghost_indices p"

subsection \<open>Attaching ghost indices\<close>

text \<open>
  Modelled from the spec: the first step of the schedule compiler, behind
  \<open>Partitioner::set_ghost_indices\<close> (partitioner.cc, not among the sources). The
  specification: "locally group \<open>ghost_set\<close> by the owning process (owner of global index
  \<open>g\<close> is the process whose \<open>owned_range\<close> contains \<open>g\<close>; this is determined by a
  globally-known partition-of-ranges lookup)", producing \<open>ghost_targets\<close>, an "ordered
  sequence of (neighbor_id, count): neighbors that own pieces of \<open>ghost_set\<close>, and how many
  ghost indices each owns", "sorted by neighbor id". The table \<open>ranges\<close> holds the owned
  range of process 0, 1, ... in this order.
\<close>

definition owned_by :: "'g::len word \<times> 'g word \<Rightarrow> 'g word \<Rightarrow> bool" where
  "owned_by r g = (fst r \<le> g \<and> g < snd r)"


definition n_owned_by :: "('g::len word \<times> 'g word) list \<Rightarrow> 'g word IndexSet \<Rightarrow> nat \<Rightarrow> nat" where
  "n_owned_by ranges ghosts pid = card {g \<in> ghosts. owned_by (ranges ! pid) g}"

definition compile_ghost_targets ::
  "('g::len word \<times> 'g word) list \<Rightarrow> 'g word IndexSet \<Rightarrow> (unsigned_int \<times> unsigned_int) list" where
  "compile_ghost_targets ranges ghosts =
     map (\<lambda>pid. (of_nat pid, of_nat (n_owned_by ranges ghosts pid)))
       (filter (\<lambda>pid. n_owned_by ranges ghosts pid \<noteq> 0) [0..<length ranges])"

text \<open>
  Modelled from the spec: \<open>Partitioner::set_ghost_indices\<close> (declared in the header, defined
  in partitioner.cc, not among the sources), the \<open>attach_ghosts\<close> of the specification: it
  "mutates the not-yet-finalized partition exactly once; fails with \<open>AlreadyFinalized\<close> if
  ghosts were already set"; "\<open>ghosts\<close> must be disjoint from \<open>owned\<close>" (\<open>GhostOverlapsOwned\<close>);
  "if \<open>superset\<close> is non-empty, \<open>ghosts\<close> must be a subset of it". The member
  \<open>have_ghost_indices\<close> "stores whether the ghost indices have been explicitly set". The
  result is the outcome of the call and the partitioner after it. The members that the
  exchange with the other processes fills (the import targets and indices) and the ranges
  within the larger ghost set are left as they are.
\<close>

definition set_ghost_indices ::
  "('g::len word \<times> 'g word) list \<Rightarrow> 'g word IndexSet \<Rightarrow> 'g word IndexSet \<Rightarrow>
   ('g word, 'c) Partitioner \<Rightarrow> ('g word error + unit) \<times> ('g word, 'c) Partitioner" where
  "set_ghost_indices ranges ghost_indices_in larger_ghost_index_set p =
     (if have_ghost_indices p then (Inl AlreadyFinalized, p)
      else if \<exists>g \<in> ghost_indices_in. in_local_range p g then (Inl GhostOverlapsOwned, p)
      else if larger_ghost_index_set \<noteq> {} \<and> \<not> ghost_indices_in \<subseteq> larger_ghost_index_set
      then (Inl GhostNotInSuperset, p)
      else (Inr (),
            p\<lparr>ghost_indices_data := ghost_indices_in,
              n_ghost_indices_data := of_nat (n_elements ghost_indices_in),
              ghost_targets_data := compile_ghost_targets ranges ghost_indices_in,
              have_ghost_indices := True\<rparr>))"

subsection \<open>Compatibility\<close>


subsection \<open>Well-formed partitioners\<close>

text \<open>
  What the header and the specification promise about the data members, as predicates.
  \<^item> \<open>local_indices_fit\<close>: the owned range is \<open>[first, second)\<close> with \<open>first \<le> second\<close>, and
    the owned and the ghost indices together number at most 2^32 - 1. Then the sum
    \<open>local_size() + n_ghost_indices()\<close>, which the header takes in \<open>unsigned int\<close>, does not
    wrap, and the largest \<open>unsigned int\<close> is the local index of no entry. A partitioner
    with 2^32 entries, whose local indices are all \<open>unsigned int\<close> values, does not
    satisfy it.
  \<^item> \<open>ghost_count_cached\<close>: \<open>n_ghost_indices_data\<close> "caches the number of ghost indices",
    \<open>ghost_indices().n_elements()\<close>.
  \<^item> \<open>ghosts_not_owned\<close>: the ghost set holds no index of the owned range (the
    specification: "ghosts must be disjoint from owned").
\<close>

definition local_indices_fit :: "('g::len word, 'c) Partitioner \<Rightarrow> bool" where
  "local_indices_fit p =
     (fst (local_range_data p) \<le> snd (local_range_data p)
      \<and> unat (snd (local_range_data p)) - unat (fst (local_range_data p))
          + n_elements (ghost_indices_data p) \<le> 4294967295)"

definition ghost_count_cached :: "('g::len word, 'c) Partitioner \<Rightarrow> bool" where
  "ghost_count_cached p = (unat (n_ghost_indices_data p) = n_elements (ghost_indices_data p))"

definition ghosts_not_owned :: "('g::len word, 'c) Partitioner \<Rightarrow> bool" where
  "ghosts_not_owned p = (\<forall>g \<in> ghost_indices_data p. \<not> in_local_range p g)"

subsection \<open>A concrete process group\<close>

text \<open>
  The scenario of the specification: 4 processes, 12 global indices, owned ranges [0,3),
  [3,6), [6,9), [9,12); process 0 has the ghost indices 4 and 7. Global indices are 64-bit
  here. \<open>process1\<close> owns [3,6), has the ghost indices 7 and 9, and sends its index 4 to
  process 0.
\<close>

definition debug_build :: config where
  "debug_build = \<lparr>debug = True, invalid_unsigned_int = - 1\<rparr>"

definition optimized_build :: config where
  "optimized_build = \<lparr>debug = False, invalid_unsigned_int = - 1\<rparr>"

definition group_ranges :: "(64 word \<times> 64 word) list" where
  "group_ranges = [(0, 3), (3, 6), (6, 9), (9, 12)]"

definition process0 :: "(64 word, nat) Partitioner" where
  "process0 =
     \<lparr>global_size = 12, locally_owned_range_data = {0, 1, 2}, local_range_data = (0, 3),
      ghost_indices_data = {4, 7}, n_ghost_indices_data = 2,
      ghost_targets_data = [(1, 1), (2, 1)], import_indices_data = [],
      n_import_indices_data = 0, import_targets_data = [],
      import_indices_chunks_by_rank_data = [0], n_ghost_indices_in_larger_set = 2,
      ghost_indices_subset_chunks_by_rank_data = [0], ghost_indices_subset_data = [],
      my_pid = 0, n_procs = 4, communicator = 0, have_ghost_indices = True\<rparr>"

definition process1 :: "(64 word, nat) Partitioner" where
  "process1 =
     \<lparr>global_size = 12, locally_owned_range_data = {3, 4, 5}, local_range_data = (3, 6),
      ghost_indices_data = {7, 9}, n_ghost_indices_data = 2,
      ghost_targets_data = [(2, 1), (3, 1)], import_indices_data = [(1, 2)],
      n_import_indices_data = 1, import_targets_data = [(0, 1)],
      import_indices_chunks_by_rank_data = [0, 1], n_ghost_indices_in_larger_set = 2,
      ghost_indices_subset_chunks_by_rank_data = [0], ghost_indices_subset_data = [],
      my_pid = 1, n_procs = 4, communicator = 0, have_ghost_indices = True\<rparr>"

text \<open>
  A partitioner whose owned range [0, 2^32) is one index too long for \<open>unsigned int\<close>.
\<close>

definition too_long :: "(64 word, nat) Partitioner" where
  "too_long = process0\<lparr>global_size := 4294967296, local_range_data := (0, 4294967296),
                        ghost_indices_data := {}, n_ghost_indices_data := 0,
                        ghost_targets_data := []\<rparr>"

text \<open>
  A partitioner with 2^32 - 2 owned indices and 2 ghost indices: every local index is an
  \<open>unsigned int\<close>, the last one is the largest \<open>unsigned int\<close>, and the number of entries
  is not.
\<close>

definition full_index_space :: "(64 word, nat) Partitioner" where
  "full_index_space =
     process0\<lparr>global_size := 4294967320, locally_owned_range_data := {0..<4294967294},
              local_range_data := (0, 4294967294),
              ghost_indices_data := {4294967300, 4294967316}, n_ghost_indices_data := 2,
              ghost_targets_data := [(1, 2)]\<rparr>"


text \<open>A partitioner whose ghost index set holds the owned index 1.\<close>

definition overlapping :: "(64 word, nat) Partitioner" where
  "overlapping = process0\<lparr>ghost_indices_data := {1, 4}\<rparr>"

text \<open>Process 0 after the constructor with the owned index set only.\<close>

definition process0_owned :: "(64 word, nat) Partitioner" where
  "process0_owned =
     \<lparr>global_size = 12, locally_owned_range_data = {0, 1, 2}, local_range_data = (0, 3),
      ghost_indices_data = {}, n_ghost_indices_data = 0,
      ghost_targets_data = [], import_indices_data = [],
      n_import_indices_data = 0, import_targets_data = [],
      import_indices_chunks_by_rank_data = [0], n_ghost_indices_in_larger_set = 2,
      ghost_indices_subset_chunks_by_rank_data = [0], ghost_indices_subset_data = [],
      my_pid = 0, n_procs = 4, communicator = 0, have_ghost_indices = False\<rparr>"

section \<open>Properties\<close>

subsection \<open>Narrowing and widening of indices\<close>

lemma unat_max_unsigned_int: "unat (- 1 :: unsigned_int) = 4294967295"
  by (simp add: unsigned_minus_1_eq_mask mask_eq_exp_minus_1)

lemma unat_ucast_mod:
  "unat (ucast w :: 'b::len word) = unat w mod 2 ^ LENGTH('b)"
  for w :: "'a::len word"
  by (simp add: unsigned_ucast_eq take_bit_eq_mod)

lemma unat_ucast_small:
  "unat w < 2 ^ LENGTH('b) \<Longrightarrow> unat (ucast w :: 'b::len word) = unat w"
  for w :: "'a::len word"
  by (simp add: unat_ucast_mod)

subsection \<open>Ghost entries and the owned range\<close>

text \<open>
  C8: for every global index \<open>g\<close>, \<open>is_ghost_entry(g)\<close> is true exactly when \<open>g\<close> is not in
  the owned local range and \<open>g\<close> is an element of the ghost index set; \<open>in_local_range(g)\<close>
  and \<open>is_ghost_entry(g)\<close> are never both true, whatever the ghost index set contains.
\<close>

theorem is_ghost_entry_iff:
  "is_ghost_entry p g = (\<not> in_local_range p g \<and> is_element (ghost_indices_data p) g)
   \<and> \<not> (in_local_range p g \<and> is_ghost_entry p g)"
  by (simp add: is_ghost_entry_def ghost_indices_def)

theorem is_ghost_entry_iff_witness:
  "in_local_range overlapping 1 \<and> is_element (ghost_indices_data overlapping) 1
   \<and> \<not> is_ghost_entry overlapping 1 \<and> is_ghost_entry overlapping 4
   \<and> \<not> is_ghost_entry overlapping 7"
proof -
  have facts: "in_local_range overlapping 1" "is_element (ghost_indices_data overlapping) 1"
    "\<not> in_local_range overlapping 4" "is_element (ghost_indices_data overlapping) 4"
    "\<not> is_element (ghost_indices_data overlapping) 7"
    by (simp_all add: in_local_range_def is_element_def overlapping_def process0_def)
  with is_ghost_entry_iff [of overlapping 1] is_ghost_entry_iff [of overlapping 4]
    is_ghost_entry_iff [of overlapping 7]
  show ?thesis by blast
qed

subsection \<open>The local size\<close>

text \<open>
  C9: \<open>local_size()\<close> takes the difference \<open>local_range().second - local_range().first\<close>
  in the type of global indices and asserts that it fits \<open>unsigned int\<close> before narrowing
  it. When the difference is at most 2^32 - 1, the call returns, in debug and in optimized
  mode alike, and the \<open>unsigned int\<close> returned is that difference exactly (the number of
  owned indices when \<open>first \<le> second\<close>); in debug mode a larger difference fails the
  assertion.
\<close>

theorem local_size_exact:
  "(unat (snd (local_range_data p) - fst (local_range_data p)) \<le> 2 ^ 32 - 1 \<longrightarrow>
      (\<exists>n. local_size cfg p = Inr n
         \<and> unat n = unat (snd (local_range_data p) - fst (local_range_data p))
         \<and> (fst (local_range_data p) \<le> snd (local_range_data p) \<longrightarrow>
              unat n = unat (snd (local_range_data p)) - unat (fst (local_range_data p)))))
   \<and> (debug cfg \<and> 2 ^ 32 - 1 < unat (snd (local_range_data p) - fst (local_range_data p)) \<longrightarrow>
        local_size cfg p = Inl ExcNotImplemented)"
proof -
  let ?d = "snd (local_range_data p) - fst (local_range_data p)"
  have narrow: "unat (ucast ?d :: unsigned_int) = unat ?d" if "unat ?d \<le> 2 ^ 32 - 1"
    using that by (simp add: unat_ucast_small)
  have diff: "unat ?d = unat (snd (local_range_data p)) - unat (fst (local_range_data p))"
    if "fst (local_range_data p) \<le> snd (local_range_data p)"
    using that by (simp add: unat_sub)
  show ?thesis
    using narrow diff by (auto simp add: local_size_def Let_def unat_max_unsigned_int)
qed

theorem local_size_exact_witness:
  "local_size debug_build process1 = Inr 3
   \<and> local_size optimized_build process1 = Inr 3
   \<and> local_size debug_build too_long = Inl ExcNotImplemented"
proof -
  have fits: "unat (snd (local_range_data process1) - fst (local_range_data process1)) \<le> 2 ^ 32 - 1"
    by (simp add: process1_def)
  have ordered: "fst (local_range_data process1) \<le> snd (local_range_data process1)"
    by (simp add: process1_def)
  have large: "debug debug_build
     \<and> 2 ^ 32 - 1 < unat (snd (local_range_data too_long) - fst (local_range_data too_long))"
    by (simp add: too_long_def debug_build_def)
  have three: "n = 3" if "unat n = unat (snd (local_range_data process1)) - unat (fst (local_range_data process1))"
    for n :: unsigned_int
  proof -
    from that have "unat n = unat (3 :: unsigned_int)" by (simp add: process1_def)
    then show ?thesis by (simp only: word_unat_eq_iff)
  qed
  from local_size_exact [of process1 debug_build] fits ordered three
  have a: "local_size debug_build process1 = Inr 3" by blast
  from local_size_exact [of process1 optimized_build] fits ordered three
  have b: "local_size optimized_build process1 = Inr 3" by blast
  from local_size_exact [of too_long debug_build] large
  have c: "local_size debug_build too_long = Inl ExcNotImplemented" by blast
  from a b c show ?thesis by simp
qed

subsection \<open>The communicator\<close>

text \<open>
  C10: the deprecated accessor \<open>get_communicator()\<close> and \<open>get_mpi_communicator()\<close> both
  return the communicator member of the partitioner, so the two calls give the same result
  on every partitioner.
\<close>

theorem get_communicator_same:
  "get_communicator p = get_mpi_communicator p \<and> get_communicator p = communicator p"
  by (simp add: get_communicator_def get_mpi_communicator_def)

subsection \<open>From global to local indices\<close>

lemma global_to_local_owned:
  "in_local_range p g \<Longrightarrow>
   global_to_local cfg p g = Inr (ucast (g - fst (local_range_data p)))"
  by (simp add: global_to_local_def)

lemma global_to_local_ghost:
  "\<not> in_local_range p g \<Longrightarrow> is_element (ghost_indices_data p) g \<Longrightarrow>
   global_to_local cfg p g =
     (case local_size cfg p of
        Inl e \<Rightarrow> Inl e
      | Inr n \<Rightarrow> Inr (n + ucast (index_within_set (ghost_indices_data p) g)))"
  by (simp add: global_to_local_def is_ghost_entry_def ghost_indices_def)

lemma global_to_local_absent:
  "\<not> in_local_range p g \<Longrightarrow> \<not> is_element (ghost_indices_data p) g \<Longrightarrow>
   global_to_local cfg p g =
     (if debug cfg then Inl (ExcIndexNotPresent g (my_pid p))
      else Inr (invalid_unsigned_int cfg))"
  by (simp add: global_to_local_def is_ghost_entry_def ghost_indices_def)

lemma owned_offset:
  assumes "in_local_range p g"
  shows "unat (g - fst (local_range_data p)) = unat g - unat (fst (local_range_data p))"
    and "unat g - unat (fst (local_range_data p))
           < unat (snd (local_range_data p)) - unat (fst (local_range_data p))"
    and "unat (fst (local_range_data p)) \<le> unat g"
  using assms by (simp_all add: in_local_range_def unat_sub word_le_nat_alt word_less_nat_alt diff_less_mono)

lemma local_size_fit:
  assumes "local_indices_fit p"
  shows "\<exists>n. local_size cfg p = Inr n
           \<and> unat n = unat (snd (local_range_data p)) - unat (fst (local_range_data p))"
proof -
  let ?d = "snd (local_range_data p) - fst (local_range_data p)"
  from assms have d: "unat ?d = unat (snd (local_range_data p)) - unat (fst (local_range_data p))"
    by (simp add: local_indices_fit_def unat_sub)
  with assms have small: "unat ?d \<le> 4294967295"
    by (simp add: local_indices_fit_def)
  then have "unat (ucast ?d :: unsigned_int) = unat ?d"
    by (simp add: unat_ucast_small)
  with d small show ?thesis
    by (simp add: local_size_def Let_def unat_max_unsigned_int)
qed

lemma rank_less:
  fixes s :: "'g::len word set"
  assumes "g \<in> s"
  shows "card {x \<in> s. x < g} < card s"
proof -
  have "{x \<in> s. x < g} \<subset> s" using assms by auto
  then show ?thesis by (simp add: psubset_card_mono)
qed

lemma card_index_set: "card s \<le> 2 ^ LENGTH('g)" for s :: "'g::len word set"
proof -
  have "card s \<le> card (UNIV :: 'g word set)" by (rule card_mono) simp_all
  then show ?thesis by (simp add: card_word)
qed

lemma unat_narrow_count:
  fixes s :: "'g::len word set"
  assumes "k < card s" and "k \<le> 4294967295"
  shows "unat (ucast (of_nat k :: 'g word) :: unsigned_int) = k"
proof -
  from assms(1) card_index_set [of s] have "k < 2 ^ LENGTH('g)" by simp
  then have "unat (of_nat k :: 'g word) = k" by (simp add: unat_of_nat)
  with assms(2) show ?thesis by (simp add: unat_ucast_small)
qed

lemma global_to_local_ghost_value:
  assumes fit: "local_indices_fit p"
    and out: "\<not> in_local_range p g" and ghost: "is_element (ghost_indices_data p) g"
  shows "\<exists>i. global_to_local cfg p g = Inr i
           \<and> unat i = unat (snd (local_range_data p)) - unat (fst (local_range_data p))
                        + card {x \<in> ghost_indices_data p. x < g}"
proof -
  let ?k = "card {x \<in> ghost_indices_data p. x < g}"
  obtain n where n: "local_size cfg p = Inr n"
    "unat n = unat (snd (local_range_data p)) - unat (fst (local_range_data p))"
    using local_size_fit [OF fit] by blast
  from ghost have k: "?k < card (ghost_indices_data p)"
    by (simp add: is_element_def rank_less)
  with fit have bound: "unat n + ?k \<le> 4294967295" "?k \<le> 4294967295"
    using n(2) by (simp_all add: local_indices_fit_def n_elements_def)
  let ?r = "ucast (index_within_set (ghost_indices_data p) g) :: unsigned_int"
  have r: "unat ?r = ?k"
    unfolding index_within_set_def using k bound(2) by (rule unat_narrow_count)
  with bound have "unat n + unat ?r < 2 ^ LENGTH(32)" by simp
  then have "unat (n + ?r) = unat n + unat ?r" by (simp only: unat_add_lem)
  with n r show ?thesis
    by (simp add: global_to_local_ghost [OF out ghost])
qed

lemma global_to_local_owned_value:
  assumes fit: "local_indices_fit p" and own: "in_local_range p g"
  shows "\<exists>i. global_to_local cfg p g = Inr i
           \<and> unat i = unat g - unat (fst (local_range_data p))"
proof -
  from owned_offset [OF own] fit
  have "unat (g - fst (local_range_data p)) < 4294967296"
    unfolding local_indices_fit_def by linarith
  then have "unat (g - fst (local_range_data p)) < 2 ^ LENGTH(32)"
    by simp
  then have "unat (ucast (g - fst (local_range_data p)) :: unsigned_int)
               = unat (g - fst (local_range_data p))"
    by (rule unat_ucast_small)
  with owned_offset(1) [OF own] show ?thesis
    by (simp add: global_to_local_owned [OF own])
qed

text \<open>
  C1, amended: for every global index \<open>g\<close>: if \<open>g\<close> lies in the owned range,
  \<open>global_to_local(g)\<close> returns \<open>g - first\<close> narrowed to \<open>unsigned int\<close>, which is \<open>g - first\<close>
  itself when the local indices fit \<open>unsigned int\<close>; otherwise, if \<open>g\<close> is in the ghost set,
  it returns \<open>local_size()\<close> plus the rank of \<open>g\<close> within the ghost set (the sum of the
  number of owned indices and the rank when the local indices fit); otherwise, in debug
  mode the call fails with \<open>ExcIndexNotPresent\<close> carrying \<open>g\<close> and the process id, and in
  optimized mode it returns \<open>numbers::invalid_unsigned_int\<close>.
\<close>

theorem global_to_local_cases:
  "(in_local_range p g \<longrightarrow>
      global_to_local cfg p g = Inr (ucast (g - fst (local_range_data p)))
      \<and> (local_indices_fit p \<longrightarrow>
           (\<exists>i. global_to_local cfg p g = Inr i
              \<and> unat i = unat g - unat (fst (local_range_data p)))))
   \<and> (\<not> in_local_range p g \<and> is_element (ghost_indices_data p) g \<longrightarrow>
        global_to_local cfg p g =
          (case local_size cfg p of
             Inl e \<Rightarrow> Inl e
           | Inr n \<Rightarrow> Inr (n + ucast (index_within_set (ghost_indices_data p) g)))
        \<and> (local_indices_fit p \<longrightarrow>
             (\<exists>i. global_to_local cfg p g = Inr i
                \<and> unat i = unat (snd (local_range_data p)) - unat (fst (local_range_data p))
                             + card {x \<in> ghost_indices_data p. x < g})))
   \<and> (\<not> in_local_range p g \<and> \<not> is_element (ghost_indices_data p) g \<longrightarrow>
        global_to_local cfg p g =
          (if debug cfg then Inl (ExcIndexNotPresent g (my_pid p))
           else Inr (invalid_unsigned_int cfg)))"
proof (intro conjI impI)
  assume own: "in_local_range p g"
  then show "global_to_local cfg p g = Inr (ucast (g - fst (local_range_data p)))"
    by (rule global_to_local_owned)
  assume fit: "local_indices_fit p"
  from fit own
  show "\<exists>i. global_to_local cfg p g = Inr i \<and> unat i = unat g - unat (fst (local_range_data p))"
    by (rule global_to_local_owned_value)
next
  assume "\<not> in_local_range p g \<and> is_element (ghost_indices_data p) g"
  then show "global_to_local cfg p g =
          (case local_size cfg p of
             Inl e \<Rightarrow> Inl e
           | Inr n \<Rightarrow> Inr (n + ucast (index_within_set (ghost_indices_data p) g)))"
    by (simp add: global_to_local_ghost)
next
  assume "\<not> in_local_range p g \<and> is_element (ghost_indices_data p) g" "local_indices_fit p"
  then show "\<exists>i. global_to_local cfg p g = Inr i
                \<and> unat i = unat (snd (local_range_data p)) - unat (fst (local_range_data p))
                             + card {x \<in> ghost_indices_data p. x < g}"
    by (simp add: global_to_local_ghost_value)
next
  assume "\<not> in_local_range p g \<and> \<not> is_element (ghost_indices_data p) g"
  then show "global_to_local cfg p g =
          (if debug cfg then Inl (ExcIndexNotPresent g (my_pid p))
           else Inr (invalid_unsigned_int cfg))"
    by (simp add: global_to_local_absent)
qed

theorem global_to_local_cases_witness:
  "global_to_local debug_build process0 1 = Inr 1
   \<and> global_to_local debug_build process0 4 = Inr 3
   \<and> global_to_local optimized_build process0 7 = Inr 4
   \<and> global_to_local debug_build process0 9 = Inl (ExcIndexNotPresent 9 0)
   \<and> global_to_local optimized_build process0 9 = Inr 4294967295"
proof -
  have own: "in_local_range process0 1"
    by (simp add: in_local_range_def process0_def)
  have ghost4: "\<not> in_local_range process0 4 \<and> is_element (ghost_indices_data process0) 4"
    by (simp add: in_local_range_def is_element_def process0_def)
  have ghost7: "\<not> in_local_range process0 7 \<and> is_element (ghost_indices_data process0) 7"
    by (simp add: in_local_range_def is_element_def process0_def)
  have absent: "\<not> in_local_range process0 9 \<and> \<not> is_element (ghost_indices_data process0) 9"
    by (simp add: in_local_range_def is_element_def process0_def)
  have size: "local_size cfg process0 = Inr 3" for cfg
    by (simp add: local_size_def process0_def unat_max_unsigned_int)
  have rank4: "index_within_set (ghost_indices_data process0) 4 = 0"
    by code_simp
  have rank7: "index_within_set (ghost_indices_data process0) 7 = 1"
    by code_simp
  from global_to_local_cases [of process0 1 debug_build] own
  have "global_to_local debug_build process0 1 = Inr (ucast (1 - fst (local_range_data process0)))"
    by blast
  then have a: "global_to_local debug_build process0 1 = Inr 1"
    by (simp add: process0_def)
  from global_to_local_cases [of process0 4 debug_build] ghost4
  have "global_to_local debug_build process0 4 =
          (case local_size debug_build process0 of
             Inl e \<Rightarrow> Inl e
           | Inr n \<Rightarrow> Inr (n + ucast (index_within_set (ghost_indices_data process0) 4)))"
    by blast
  then have b: "global_to_local debug_build process0 4 = Inr 3"
    by (simp add: size rank4)
  from global_to_local_cases [of process0 7 optimized_build] ghost7
  have "global_to_local optimized_build process0 7 =
          (case local_size optimized_build process0 of
             Inl e \<Rightarrow> Inl e
           | Inr n \<Rightarrow> Inr (n + ucast (index_within_set (ghost_indices_data process0) 7)))"
    by blast
  then have c: "global_to_local optimized_build process0 7 = Inr 4"
    by (simp add: size rank7)
  from global_to_local_cases [of process0 9 debug_build] absent
  have d: "global_to_local debug_build process0 9 = Inl (ExcIndexNotPresent 9 0)"
    by (simp add: debug_build_def process0_def)
  from global_to_local_cases [of process0 9 optimized_build] absent
  have e: "global_to_local optimized_build process0 9 = Inr 4294967295"
    by (simp add: optimized_build_def)
  from a b c d e show ?thesis by simp
qed

text \<open>
  As stated, C1 lets the call fail for every index that is neither owned nor a ghost. In
  optimized mode the call returns: on process 1 of the concrete group, index 10.
\<close>

theorem global_to_local_fails_counterexample:
  "\<not> in_local_range process1 10
   \<and> \<not> is_element (ghost_indices_data process1) 10
   \<and> global_to_local optimized_build process1 10 = Inr 4294967295
   \<and> global_to_local optimized_build process1 10 \<noteq> Inl (ExcIndexNotPresent 10 (my_pid process1))"
  by (simp add: global_to_local_def in_local_range_def is_ghost_entry_def ghost_indices_def
      is_element_def process1_def optimized_build_def)

text \<open>
  C3, amended: for every global index \<open>g\<close> that is neither in the owned range nor in the
  ghost set (inside or outside \<open>[0, global_size)\<close>), \<open>global_to_local(g)\<close> fails in debug
  mode with \<open>ExcIndexNotPresent\<close> carrying \<open>g\<close> and the process id, and returns no index; in
  optimized mode it returns \<open>numbers::invalid_unsigned_int\<close>. That value is not below the
  number of owned and ghost indices, hence the local index of no entry, when it is the
  largest \<open>unsigned int\<close> and the partitioner has \<open>first \<le> second\<close> and at most 2^32 - 1
  owned and ghost indices together.
\<close>

theorem global_to_local_not_present:
  "\<not> in_local_range p g \<and> \<not> is_element (ghost_indices_data p) g \<longrightarrow>
     global_to_local cfg p g =
       (if debug cfg then Inl (ExcIndexNotPresent g (my_pid p))
        else Inr (invalid_unsigned_int cfg))
     \<and> (debug cfg \<longrightarrow> (\<forall>i. global_to_local cfg p g \<noteq> Inr i))
     \<and> (local_indices_fit p \<and> invalid_unsigned_int cfg = - 1 \<longrightarrow>
          \<not> unat (invalid_unsigned_int cfg)
              < unat (snd (local_range_data p)) - unat (fst (local_range_data p))
                + n_elements (ghost_indices_data p))"
  by (auto simp add: global_to_local_absent local_indices_fit_def unat_max_unsigned_int)

theorem global_to_local_not_present_witness:
  "global_to_local debug_build process1 0 = Inl (ExcIndexNotPresent 0 1)
   \<and> global_to_local optimized_build process1 10 = Inr 4294967295
   \<and> \<not> unat (invalid_unsigned_int optimized_build)
         < unat (snd (local_range_data process1)) - unat (fst (local_range_data process1))
           + n_elements (ghost_indices_data process1)"
proof -
  have absent: "\<not> in_local_range process1 g \<and> \<not> is_element (ghost_indices_data process1) g"
    if "g = 0 \<or> g = 10" for g
    using that by (auto simp add: in_local_range_def is_element_def process1_def)
  have fit: "local_indices_fit process1 \<and> invalid_unsigned_int optimized_build = - 1"
    by (simp add: local_indices_fit_def n_elements_def process1_def optimized_build_def)
  from global_to_local_not_present [of process1 0 debug_build] absent [of 0]
  have a: "global_to_local debug_build process1 0 = Inl (ExcIndexNotPresent 0 1)"
    by (simp add: debug_build_def process1_def)
  from global_to_local_not_present [of process1 10 optimized_build] absent [of 10]
  have b: "global_to_local optimized_build process1 10 = Inr 4294967295"
    by (simp add: optimized_build_def)
  from global_to_local_not_present [of process1 10 optimized_build] absent [of 10] fit
  have c: "\<not> unat (invalid_unsigned_int optimized_build)
         < unat (snd (local_range_data process1)) - unat (fst (local_range_data process1))
           + n_elements (ghost_indices_data process1)"
    by blast
  from a b c show ?thesis by blast
qed

text \<open>
  As stated, C3 excludes an out-of-range local index as the result. In optimized mode
  process 0 of the concrete group, with 3 owned and 2 ghost indices, answers 4294967295
  for the global index 12, which is outside \<open>[0, global_size)\<close>.
\<close>

theorem global_to_local_sentinel_counterexample:
  "\<not> 12 < global_size process0
   \<and> \<not> in_local_range process0 12
   \<and> \<not> is_ghost_entry process0 12
   \<and> global_to_local optimized_build process0 12 = Inr 4294967295
   \<and> \<not> (4294967295 :: unsigned_int) < 3 + n_ghost_indices process0"
  by (simp add: global_to_local_def in_local_range_def is_ghost_entry_def ghost_indices_def
      is_element_def n_ghost_indices_def process0_def optimized_build_def)

text \<open>
  The bound on the number of entries cannot be dropped: with 2^32 - 2 owned and 2 ghost
  indices the largest \<open>unsigned int\<close> is the local index of the second ghost entry.
\<close>

lemma sentinel_is_local_index:
  "\<not> local_indices_fit full_index_space
   \<and> is_ghost_entry full_index_space 4294967316
   \<and> global_to_local optimized_build full_index_space 4294967316 = Inr 4294967295
   \<and> global_to_local debug_build full_index_space 4294967316 = Inr 4294967295"
proof -
  have "index_within_set {4294967300, 4294967316 :: 64 word} 4294967316 = 1"
    by code_simp
  then have rank: "index_within_set (ghost_indices_data full_index_space) 4294967316 = 1"
    by (simp add: full_index_space_def process0_def)
  have size: "local_size cfg full_index_space = Inr 4294967294" for cfg
    by (simp add: local_size_def full_index_space_def process0_def unat_max_unsigned_int)
  have ghost: "is_ghost_entry full_index_space 4294967316"
    by (simp add: is_ghost_entry_def in_local_range_def ghost_indices_def is_element_def
        full_index_space_def process0_def)
  have out: "\<not> in_local_range full_index_space 4294967316"
    by (simp add: in_local_range_def full_index_space_def process0_def)
  have a: "global_to_local cfg full_index_space 4294967316 = Inr 4294967295" for cfg
    using ghost out by (simp add: global_to_local_def size rank)
  have b: "\<not> local_indices_fit full_index_space"
    by (simp add: local_indices_fit_def n_elements_def full_index_space_def process0_def)
  from a b ghost show ?thesis by simp
qed

subsection \<open>Ranks in the ascending list of an index set\<close>

lemma sorted_list_rank:
  fixes s :: "'a::linorder set"
  assumes fin: "finite s" and k: "k < card s"
  shows "card {x \<in> s. x < sorted_list_of_set s ! k} = k"
proof -
  let ?xs = "sorted_list_of_set s"
  from fin have set_xs: "set ?xs = s" and dist: "distinct ?xs" and srt: "sorted ?xs"
    by simp_all
  from dist have len: "length ?xs = card s"
    using set_xs by (metis distinct_card)
  have "{x \<in> s. x < ?xs ! k} = set (take k ?xs)"
  proof (rule set_eqI)
    fix x
    show "x \<in> {x \<in> s. x < ?xs ! k} \<longleftrightarrow> x \<in> set (take k ?xs)"
    proof
      assume "x \<in> {x \<in> s. x < ?xs ! k}"
      then have "x \<in> set ?xs" and less: "x < ?xs ! k" using set_xs by simp_all
      then obtain j where j: "j < length ?xs" "?xs ! j = x"
        by (auto simp add: in_set_conv_nth)
      have "j < k"
      proof (rule ccontr)
        assume "\<not> j < k"
        then have "k \<le> j" by simp
        with srt j(1) have "?xs ! k \<le> ?xs ! j" by (simp add: sorted_nth_mono)
        with less j(2) show False by simp
      qed
      with j show "x \<in> set (take k ?xs)"
        by (auto simp add: in_set_conv_nth)
    next
      assume "x \<in> set (take k ?xs)"
      then obtain j where j: "j < k" "j < length ?xs" "?xs ! j = x"
        by (auto simp add: in_set_conv_nth)
      from k len have kl: "k < length ?xs" by simp
      from srt j(1) kl have "?xs ! j \<le> ?xs ! k" by (simp add: sorted_nth_mono)
      moreover from dist j(1,2) kl have "?xs ! j \<noteq> ?xs ! k"
        by (simp add: nth_eq_iff_index_eq)
      ultimately have "?xs ! j < ?xs ! k" by simp
      with j(2,3) set_xs show "x \<in> {x \<in> s. x < ?xs ! k}"
        by (metis (mono_tags, lifting) mem_Collect_eq nth_mem)
    qed
  qed
  moreover from dist have "card (set (take k ?xs)) = length (take k ?xs)"
    by (simp add: distinct_card)
  ultimately show ?thesis using k len by simp
qed

lemma sorted_list_nth_rank:
  fixes s :: "'a::linorder set"
  assumes fin: "finite s" and g: "g \<in> s"
  shows "sorted_list_of_set s ! card {x \<in> s. x < g} = g"
proof -
  let ?xs = "sorted_list_of_set s"
  from fin g have "g \<in> set ?xs" by simp
  then obtain j where j: "j < length ?xs" "?xs ! j = g"
    by (auto simp add: in_set_conv_nth)
  from fin have "length ?xs = card s"
    by (metis distinct_card distinct_sorted_list_of_set set_sorted_list_of_set)
  with j(1) have "j < card s" by simp
  from sorted_list_rank [OF fin this] j(2) show ?thesis by simp
qed

lemma sorted_list_nth_less:
  fixes s :: "'a::linorder set"
  assumes fin: "finite s" and "j < k" and "k < card s"
  shows "sorted_list_of_set s ! j < sorted_list_of_set s ! k"
proof -
  let ?xs = "sorted_list_of_set s"
  from fin have len: "length ?xs = card s"
    by (metis distinct_card distinct_sorted_list_of_set set_sorted_list_of_set)
  with assms have "?xs ! j \<le> ?xs ! k"
    by (simp add: sorted_nth_mono)
  moreover from assms len have "?xs ! j \<noteq> ?xs ! k"
    by (simp add: nth_eq_iff_index_eq)
  ultimately show ?thesis by simp
qed

lemma ghost_list_length:
  "length (sorted_list_of_set s) = card s" for s :: "'g::len word set"
  by (metis distinct_card distinct_sorted_list_of_set set_sorted_list_of_set finite_code)

lemma ghost_list_member:
  "k < card s \<Longrightarrow> sorted_list_of_set s ! k \<in> s" for s :: "'g::len word set"
  by (metis ghost_list_length nth_mem set_sorted_list_of_set finite_code)

subsection \<open>From local to global indices\<close>

lemma index_range_fit:
  assumes fit: "local_indices_fit p" and cached: "ghost_count_cached p"
  shows "\<exists>n. local_size cfg p = Inr n
           \<and> unat n = unat (snd (local_range_data p)) - unat (fst (local_range_data p))
           \<and> unat (n + n_ghost_indices_data p) = unat n + card (ghost_indices_data p)"
proof -
  obtain n where n: "local_size cfg p = Inr n"
    "unat n = unat (snd (local_range_data p)) - unat (fst (local_range_data p))"
    using local_size_fit [OF fit] by blast
  from fit cached n(2) have "unat n + unat (n_ghost_indices_data p) < 2 ^ LENGTH(32)"
    by (simp add: local_indices_fit_def ghost_count_cached_def)
  then have "unat (n + n_ghost_indices_data p) = unat n + unat (n_ghost_indices_data p)"
    by (simp only: unat_add_lem)
  with cached n show ?thesis
    by (simp add: ghost_count_cached_def n_elements_def)
qed

lemma local_to_global_owned:
  assumes fit: "local_indices_fit p" and cached: "ghost_count_cached p"
    and i: "unat i < unat (snd (local_range_data p)) - unat (fst (local_range_data p))"
  shows "local_to_global cfg p i = Inr (fst (local_range_data p) + ucast i)"
    and "unat (fst (local_range_data p) + ucast i) = unat (fst (local_range_data p)) + unat i"
    and "in_local_range p (fst (local_range_data p) + ucast i)"
proof -
  let ?lo = "fst (local_range_data p)" and ?hi = "snd (local_range_data p)"
  obtain n where n: "local_size cfg p = Inr n" "unat n = unat ?hi - unat ?lo"
    "unat (n + n_ghost_indices_data p) = unat n + card (ghost_indices_data p)"
    using index_range_fit [OF fit cached] by blast
  from i n have less: "i < n" "i < n + n_ghost_indices_data p"
    by (simp_all add: word_less_nat_alt)
  then show "local_to_global cfg p i = Inr (?lo + ucast i)"
    by (simp add: local_to_global_def AssertIndexRange_def n(1))
  have hi: "unat ?hi < 2 ^ LENGTH('a)" by (rule unsigned_less)
  with i have "unat i < 2 ^ LENGTH('a)" by linarith
  then have wide: "unat (ucast i :: 'a word) = unat i" by (rule unat_ucast_small)
  from i hi have "unat ?lo + unat (ucast i :: 'a word) < 2 ^ LENGTH('a)"
    unfolding wide by linarith
  then have "unat (?lo + ucast i) = unat ?lo + unat (ucast i :: 'a word)"
    by (simp only: unat_add_lem)
  with wide show sum: "unat (?lo + ucast i) = unat ?lo + unat i" by simp
  with i show "in_local_range p (?lo + ucast i)"
    by (simp add: in_local_range_def word_le_nat_alt word_less_nat_alt)
qed

lemma local_to_global_ghost:
  assumes fit: "local_indices_fit p" and cached: "ghost_count_cached p"
    and lo: "unat (snd (local_range_data p)) - unat (fst (local_range_data p)) \<le> unat i"
    and hi: "unat i < unat (snd (local_range_data p)) - unat (fst (local_range_data p))
                       + card (ghost_indices_data p)"
  shows "local_to_global cfg p i =
           Inr (sorted_list_of_set (ghost_indices_data p)
                  ! (unat i - (unat (snd (local_range_data p)) - unat (fst (local_range_data p)))))"
proof -
  let ?span = "unat (snd (local_range_data p)) - unat (fst (local_range_data p))"
  obtain n where n: "local_size cfg p = Inr n" "unat n = ?span"
    "unat (n + n_ghost_indices_data p) = unat n + card (ghost_indices_data p)"
    using index_range_fit [OF fit cached] by blast
  from lo hi n have cmp: "\<not> i < n" "i < n + n_ghost_indices_data p" "n \<le> i"
    by (simp_all add: word_less_nat_alt word_le_nat_alt)
  from cmp(3) n(2) have sub: "unat (i - n) = unat i - ?span"
    by (simp add: unat_sub)
  from lo hi have k: "unat i - ?span < card (ghost_indices_data p)" by linarith
  with card_index_set [of "ghost_indices_data p"] have "unat (i - n) < 2 ^ LENGTH('a)"
    unfolding sub by linarith
  then have "unat (ucast (i - n) :: 'a word) = unat (i - n)" by (rule unat_ucast_small)
  with sub k have "nth_index_in_set (ghost_indices_data p) (ucast (i - n))
      = Some (sorted_list_of_set (ghost_indices_data p) ! (unat i - ?span))"
    by (simp add: nth_index_in_set_def)
  with cmp show ?thesis
    by (simp add: local_to_global_def AssertIndexRange_def n(1))
qed

lemma process0_well_formed:
  "local_indices_fit process0" "ghost_count_cached process0" "ghosts_not_owned process0"
  by (simp_all add: local_indices_fit_def ghost_count_cached_def ghosts_not_owned_def
      n_elements_def in_local_range_def process0_def)

lemma process0_local_size: "local_size cfg process0 = Inr 3"
  by (simp add: local_size_def process0_def unat_max_unsigned_int)

subsection \<open>The round trip\<close>

lemma global_of_local:
  assumes fit: "local_indices_fit p" and cached: "ghost_count_cached p"
    and disjoint: "ghosts_not_owned p"
    and i: "unat i < unat (snd (local_range_data p)) - unat (fst (local_range_data p))
                       + card (ghost_indices_data p)"
  shows "\<exists>g. local_to_global cfg p i = Inr g \<and> global_to_local cfg p g = Inr i"
proof (cases "unat i < unat (snd (local_range_data p)) - unat (fst (local_range_data p))")
  case True
  let ?g = "fst (local_range_data p) + ucast i"
  note l2g = local_to_global_owned [OF fit cached True]
  obtain r where r: "global_to_local cfg p ?g = Inr r"
    "unat r = unat ?g - unat (fst (local_range_data p))"
    using global_to_local_owned_value [OF fit l2g(3)] by blast
  from r(2) l2g(2) have "unat r = unat i" by simp
  then have "r = i" by (simp only: word_unat_eq_iff)
  with r(1) l2g(1) show ?thesis by simp
next
  case False
  let ?span = "unat (snd (local_range_data p)) - unat (fst (local_range_data p))"
  let ?s = "ghost_indices_data p"
  let ?g = "sorted_list_of_set ?s ! (unat i - ?span)"
  from False have lo: "?span \<le> unat i" by simp
  note l2g = local_to_global_ghost [OF fit cached lo i, of cfg]
  from lo i have k: "unat i - ?span < card ?s" by linarith
  then have mem: "?g \<in> ?s" by (rule ghost_list_member)
  with disjoint have out: "\<not> in_local_range p ?g"
    by (simp add: ghosts_not_owned_def)
  from mem have el: "is_element ?s ?g" by (simp add: is_element_def)
  obtain r where r: "global_to_local cfg p ?g = Inr r"
    "unat r = ?span + card {x \<in> ?s. x < ?g}"
    using global_to_local_ghost_value [OF fit out el] by blast
  have "card {x \<in> ?s. x < ?g} = unat i - ?span"
    using k by (simp add: sorted_list_rank)
  with r(2) lo have "unat r = unat i" by simp
  then have "r = i" by (simp only: word_unat_eq_iff)
  with r(1) l2g show ?thesis by simp
qed

lemma local_of_global:
  assumes fit: "local_indices_fit p" and cached: "ghost_count_cached p"
    and g: "in_local_range p g \<or> is_ghost_entry p g"
  shows "\<exists>i. global_to_local cfg p g = Inr i \<and> local_to_global cfg p i = Inr g"
proof (cases "in_local_range p g")
  case True
  obtain i where i: "global_to_local cfg p g = Inr i"
    "unat i = unat g - unat (fst (local_range_data p))"
    using global_to_local_owned_value [OF fit True] by blast
  from owned_offset(2) [OF True] i(2)
  have less: "unat i < unat (snd (local_range_data p)) - unat (fst (local_range_data p))"
    by simp
  note l2g = local_to_global_owned [OF fit cached less]
  from l2g(2) i(2) owned_offset(3) [OF True]
  have "unat (fst (local_range_data p) + ucast i) = unat g" by simp
  then have "fst (local_range_data p) + ucast i = g" by (simp only: word_unat_eq_iff)
  with l2g(1) i(1) show ?thesis by simp
next
  case False
  let ?span = "unat (snd (local_range_data p)) - unat (fst (local_range_data p))"
  let ?s = "ghost_indices_data p"
  from False g have el: "is_element ?s g"
    by (simp add: is_ghost_entry_def ghost_indices_def)
  then have mem: "g \<in> ?s" by (simp add: is_element_def)
  obtain i where i: "global_to_local cfg p g = Inr i"
    "unat i = ?span + card {x \<in> ?s. x < g}"
    using global_to_local_ghost_value [OF fit False el] by blast
  from mem have "card {x \<in> ?s. x < g} < card ?s" by (rule rank_less)
  with i(2) have lo: "?span \<le> unat i" and hi: "unat i < ?span + card ?s" by simp_all
  from i(2) have "unat i - ?span = card {x \<in> ?s. x < g}" by simp
  with local_to_global_ghost [OF fit cached lo hi, of cfg] mem
  have "local_to_global cfg p i = Inr g"
    by (simp add: sorted_list_nth_rank)
  with i(1) show ?thesis by simp
qed

text \<open>
  C2, amended: for a partitioner whose owned range is \<open>[first, second)\<close> with \<open>first \<le>
  second\<close>, whose owned and ghost indices together number at most 2^32 - 1, whose
  \<open>n_ghost_indices()\<close> is the size of the ghost set and whose ghost set holds no owned
  index: \<open>local_size()\<close> returns, for every local index \<open>i\<close> below \<open>local_size() +
  n_ghost_indices()\<close> the call \<open>local_to_global(i)\<close> returns an index that
  \<open>global_to_local\<close> maps back to \<open>i\<close>, and for every global index \<open>g\<close> that is owned or a
  ghost entry \<open>global_to_local(g)\<close> returns an index that \<open>local_to_global\<close> maps back to
  \<open>g\<close>; in debug and in optimized mode.
\<close>

theorem local_global_round_trip:
  assumes fit: "local_indices_fit p" and cached: "ghost_count_cached p"
    and disjoint: "ghosts_not_owned p"
  shows "\<exists>n. local_size cfg p = Inr n
           \<and> (\<forall>i. unat i < unat n + unat (n_ghost_indices p) \<longrightarrow>
                 (\<exists>g. local_to_global cfg p i = Inr g \<and> global_to_local cfg p g = Inr i))
           \<and> (\<forall>g. in_local_range p g \<or> is_ghost_entry p g \<longrightarrow>
                 (\<exists>i. global_to_local cfg p g = Inr i \<and> local_to_global cfg p i = Inr g))"
proof -
  obtain n where n: "local_size cfg p = Inr n"
    "unat n = unat (snd (local_range_data p)) - unat (fst (local_range_data p))"
    using local_size_fit [OF fit] by blast
  from cached have count: "unat (n_ghost_indices p) = card (ghost_indices_data p)"
    by (simp add: ghost_count_cached_def n_ghost_indices_def n_elements_def)
  have "\<exists>g. local_to_global cfg p i = Inr g \<and> global_to_local cfg p g = Inr i"
    if "unat i < unat n + unat (n_ghost_indices p)" for i
    using that global_of_local [OF fit cached disjoint, of i cfg] by (simp add: n(2) count)
  moreover have "\<exists>i. global_to_local cfg p g = Inr i \<and> local_to_global cfg p i = Inr g"
    if "in_local_range p g \<or> is_ghost_entry p g" for g
    using that by (rule local_of_global [OF fit cached])
  ultimately show ?thesis using n(1) by blast
qed

theorem local_global_round_trip_witness:
  "local_indices_fit process0 \<and> ghost_count_cached process0 \<and> ghosts_not_owned process0
   \<and> (\<exists>g. local_to_global debug_build process0 4 = Inr g
          \<and> global_to_local debug_build process0 g = Inr 4)
   \<and> (\<exists>i. global_to_local debug_build process0 7 = Inr i
          \<and> local_to_global debug_build process0 i = Inr 7)
   \<and> (\<exists>i. global_to_local optimized_build process0 2 = Inr i
          \<and> local_to_global optimized_build process0 i = Inr 2)"
proof -
  have i4: "unat (4 :: unsigned_int) < unat (3 :: unsigned_int) + unat (n_ghost_indices process0)"
    by (simp add: n_ghost_indices_def process0_def)
  have g7: "in_local_range process0 7 \<or> is_ghost_entry process0 7"
    by (simp add: in_local_range_def is_ghost_entry_def ghost_indices_def is_element_def
        process0_def)
  have g2: "in_local_range process0 2 \<or> is_ghost_entry process0 2"
    by (simp add: in_local_range_def process0_def)
  from local_global_round_trip [OF process0_well_formed, of debug_build]
  obtain n where n: "local_size debug_build process0 = Inr n"
    and from_local: "\<forall>i. unat i < unat n + unat (n_ghost_indices process0) \<longrightarrow>
                 (\<exists>g. local_to_global debug_build process0 i = Inr g
                    \<and> global_to_local debug_build process0 g = Inr i)"
    and from_global: "\<forall>g. in_local_range process0 g \<or> is_ghost_entry process0 g \<longrightarrow>
                 (\<exists>i. global_to_local debug_build process0 g = Inr i
                    \<and> local_to_global debug_build process0 i = Inr g)"
    by blast
  from n have "n = 3" by (simp add: process0_local_size)
  with from_local i4 have a: "\<exists>g. local_to_global debug_build process0 4 = Inr g
          \<and> global_to_local debug_build process0 g = Inr 4"
    by blast
  from from_global g7 have b: "\<exists>i. global_to_local debug_build process0 7 = Inr i
          \<and> local_to_global debug_build process0 i = Inr 7"
    by blast
  from local_global_round_trip [OF process0_well_formed, of optimized_build] g2
  have c: "\<exists>i. global_to_local optimized_build process0 2 = Inr i
          \<and> local_to_global optimized_build process0 i = Inr 2"
    by blast
  from a b c process0_well_formed show ?thesis by blast
qed

text \<open>
  As stated, C2 holds for every partition of the global indices. With 2^32 - 2 owned and 2
  ghost indices the sum \<open>local_size() + n_ghost_indices_data\<close> in \<open>AssertIndexRange\<close> wraps
  to 0: in debug mode \<open>global_to_local\<close> maps the ghost index 4294967300 to the local index
  4294967294, and \<open>local_to_global\<close> rejects that local index.
\<close>

theorem round_trip_wraps_counterexample:
  "ghost_count_cached full_index_space
   \<and> ghosts_not_owned full_index_space
   \<and> is_ghost_entry full_index_space 4294967300
   \<and> global_to_local debug_build full_index_space 4294967300 = Inr 4294967294
   \<and> local_size debug_build full_index_space = Inr 4294967294
   \<and> n_ghost_indices full_index_space = 2
   \<and> local_to_global debug_build full_index_space 4294967294
        = Inl (ExcIndexRange 4294967294 0 0)"
proof -
  have "index_within_set {4294967300, 4294967316 :: 64 word} 4294967300 = 0"
    by code_simp
  then have rank: "index_within_set (ghost_indices_data full_index_space) 4294967300 = 0"
    by (simp add: full_index_space_def process0_def)
  have dbg: "debug debug_build" by (simp add: debug_build_def)
  have size: "local_size debug_build full_index_space = Inr 4294967294"
    by (simp add: local_size_def full_index_space_def process0_def unat_max_unsigned_int)
  have ghost: "is_ghost_entry full_index_space 4294967300"
    by (simp add: is_ghost_entry_def in_local_range_def ghost_indices_def is_element_def
        full_index_space_def process0_def)
  have out: "\<not> in_local_range full_index_space 4294967300"
    by (simp add: in_local_range_def full_index_space_def process0_def)
  have a: "global_to_local debug_build full_index_space 4294967300 = Inr 4294967294"
    using ghost out by (simp add: global_to_local_def size rank dbg)
  have count: "n_ghost_indices_data full_index_space = 2"
    by (simp add: full_index_space_def process0_def)
  have wrap: "4294967294 + n_ghost_indices_data full_index_space = 0"
    by (simp add: count)
  have b: "local_to_global debug_build full_index_space 4294967294
        = Inl (ExcIndexRange 4294967294 0 0)"
    by (simp add: local_to_global_def AssertIndexRange_def size wrap dbg)
  have c: "ghost_count_cached full_index_space" "ghosts_not_owned full_index_space"
    by (simp_all add: ghost_count_cached_def ghosts_not_owned_def n_elements_def
        in_local_range_def full_index_space_def process0_def)
  from a b c ghost size count show ?thesis by (simp add: n_ghost_indices_def)
qed

subsection \<open>The order of the ghost entries\<close>

text \<open>
  C4, amended: for a partitioner whose owned range is \<open>[first, second)\<close> with \<open>first \<le>
  second\<close>, whose owned and ghost indices together number at most 2^32 - 1 and whose
  \<open>n_ghost_indices()\<close> is the size of the ghost set, the local indices from \<open>local_size()\<close>
  up to \<open>local_size() + n_ghost_indices()\<close> are those of the ghost entries, in strictly
  ascending order of their global indices: for local indices \<open>i < j\<close> of that segment
  \<open>local_to_global\<close> returns elements of the ghost set with \<open>local_to_global(i) <
  local_to_global(j)\<close>; and on an owned local index \<open>i < local_size()\<close> it returns
  \<open>first + i\<close>; in debug and in optimized mode.
\<close>

theorem ghost_segment_ascending:
  assumes fit: "local_indices_fit p" and cached: "ghost_count_cached p"
  shows "\<exists>n. local_size cfg p = Inr n
           \<and> (\<forall>i j. n \<le> i \<and> i < j \<and> unat j < unat n + unat (n_ghost_indices p) \<longrightarrow>
                 (\<exists>gi gj. local_to_global cfg p i = Inr gi \<and> local_to_global cfg p j = Inr gj
                    \<and> is_element (ghost_indices p) gi \<and> is_element (ghost_indices p) gj
                    \<and> gi < gj))
           \<and> (\<forall>i. i < n \<longrightarrow>
                 local_to_global cfg p i = Inr (fst (local_range_data p) + ucast i)
                 \<and> unat (fst (local_range_data p) + ucast i)
                     = unat (fst (local_range_data p)) + unat i)"
proof -
  let ?span = "unat (snd (local_range_data p)) - unat (fst (local_range_data p))"
  let ?s = "ghost_indices_data p"
  let ?xs = "sorted_list_of_set ?s"
  obtain n where n: "local_size cfg p = Inr n" "unat n = ?span"
    using local_size_fit [OF fit] by blast
  from cached have count: "unat (n_ghost_indices p) = card ?s"
    by (simp add: ghost_count_cached_def n_ghost_indices_def n_elements_def)
  have ghosts: "\<exists>gi gj. local_to_global cfg p i = Inr gi \<and> local_to_global cfg p j = Inr gj
                    \<and> is_element (ghost_indices p) gi \<and> is_element (ghost_indices p) gj
                    \<and> gi < gj"
    if ij: "n \<le> i \<and> i < j \<and> unat j < unat n + unat (n_ghost_indices p)" for i j
  proof -
    from ij n(2) count have b: "?span \<le> unat i" "unat i < unat j" "unat j < ?span + card ?s"
      by (simp_all add: word_le_nat_alt word_less_nat_alt)
    then have bi: "unat i < ?span + card ?s" and bj: "?span \<le> unat j" by simp_all
    from b bi bj have k: "unat i - ?span < unat j - ?span" "unat j - ?span < card ?s"
      by linarith+
    then have ki: "unat i - ?span < card ?s" by simp
    have "?xs ! (unat i - ?span) < ?xs ! (unat j - ?span)"
      using k by (simp add: sorted_list_nth_less)
    moreover have "?xs ! (unat i - ?span) \<in> ?s" "?xs ! (unat j - ?span) \<in> ?s"
      using ki k(2) by (simp_all add: ghost_list_member)
    ultimately show ?thesis
      using local_to_global_ghost [OF fit cached b(1) bi, of cfg]
        local_to_global_ghost [OF fit cached bj b(3), of cfg]
      by (simp add: is_element_def ghost_indices_def)
  qed
  have owned: "local_to_global cfg p i = Inr (fst (local_range_data p) + ucast i)
                 \<and> unat (fst (local_range_data p) + ucast i)
                     = unat (fst (local_range_data p)) + unat i"
    if "i < n" for i
  proof -
    from that n(2) have "unat i < ?span" by (simp add: word_less_nat_alt)
    from local_to_global_owned(1,2) [OF fit cached this] show ?thesis by simp
  qed
  from n(1) ghosts owned show ?thesis by blast
qed

theorem ghost_segment_ascending_witness:
  "local_indices_fit process0 \<and> ghost_count_cached process0
   \<and> (\<exists>gi gj. local_to_global debug_build process0 3 = Inr gi
          \<and> local_to_global debug_build process0 4 = Inr gj \<and> gi < gj)
   \<and> local_to_global debug_build process0 2 = Inr 2"
proof -
  from ghost_segment_ascending [OF process0_well_formed(1,2), of debug_build]
  obtain n where n: "local_size debug_build process0 = Inr n"
    and ghosts: "\<forall>i j. n \<le> i \<and> i < j \<and> unat j < unat n + unat (n_ghost_indices process0) \<longrightarrow>
                 (\<exists>gi gj. local_to_global debug_build process0 i = Inr gi
                    \<and> local_to_global debug_build process0 j = Inr gj
                    \<and> is_element (ghost_indices process0) gi
                    \<and> is_element (ghost_indices process0) gj
                    \<and> gi < gj)"
    and owned: "\<forall>i. i < n \<longrightarrow>
                 local_to_global debug_build process0 i
                   = Inr (fst (local_range_data process0) + ucast i)
                 \<and> unat (fst (local_range_data process0) + ucast i)
                     = unat (fst (local_range_data process0)) + unat i"
    by blast
  from n have n3: "n = 3" by (simp add: process0_local_size)
  have ij: "n \<le> 3 \<and> (3 :: unsigned_int) < 4
      \<and> unat (4 :: unsigned_int) < unat n + unat (n_ghost_indices process0)"
    by (simp add: n3 n_ghost_indices_def process0_def)
  with ghosts have a: "\<exists>gi gj. local_to_global debug_build process0 3 = Inr gi
          \<and> local_to_global debug_build process0 4 = Inr gj \<and> gi < gj"
    by blast
  have "(2 :: unsigned_int) < n" by (simp add: n3)
  with owned have "local_to_global debug_build process0 2
      = Inr (fst (local_range_data process0) + ucast (2 :: unsigned_int))"
    by blast
  then have b: "local_to_global debug_build process0 2 = Inr 2"
    by (simp add: process0_def)
  from a b process0_well_formed(1,2) show ?thesis by blast
qed

text \<open>
  As stated, C4 gives \<open>first + i\<close> for every owned local index of every partitioner. With
  2^32 - 2 owned and 2 ghost indices the debug build rejects the owned local index 1: the
  sum \<open>local_size() + n_ghost_indices_data\<close> in \<open>AssertIndexRange\<close> wraps to 0.
\<close>

theorem owned_index_rejected_counterexample:
  "local_size debug_build full_index_space = Inr 4294967294
   \<and> (1 :: unsigned_int) < 4294967294
   \<and> ghost_count_cached full_index_space
   \<and> local_to_global debug_build full_index_space 1 = Inl (ExcIndexRange 1 0 0)
   \<and> local_to_global debug_build full_index_space 1
        \<noteq> Inr (fst (local_range_data full_index_space) + 1)"
proof -
  have size: "local_size debug_build full_index_space = Inr 4294967294"
    by (simp add: local_size_def full_index_space_def process0_def unat_max_unsigned_int)
  have count: "n_ghost_indices_data full_index_space = 2"
    by (simp add: full_index_space_def process0_def)
  have dbg: "debug debug_build" by (simp add: debug_build_def)
  have wrap: "4294967294 + n_ghost_indices_data full_index_space = 0"
    by (simp add: count)
  have a: "local_to_global debug_build full_index_space 1 = Inl (ExcIndexRange 1 0 0)"
    by (simp add: local_to_global_def AssertIndexRange_def size wrap dbg)
  have c: "ghost_count_cached full_index_space"
    by (simp add: ghost_count_cached_def n_elements_def full_index_space_def process0_def)
  from a c size show ?thesis by simp
qed

subsection \<open>Ghost targets\<close>






lemma attach_process0:
  "set_ghost_indices group_ranges {4, 7} {} process0_owned = (Inr (), process0)"
  by code_simp



subsection \<open>Attaching ghost indices once\<close>

text \<open>
  C6: attaching ghost indices succeeds at most once: on a partitioner whose ghost
  indices are already set, \<open>set_ghost_indices\<close> fails with \<open>AlreadyFinalized\<close> and leaves the
  partitioner as it is; and after an attachment that succeeded the ghost indices are set,
  so every further attachment, with whatever arguments, fails in this way.
\<close>

theorem set_ghost_indices_once:
  "(have_ghost_indices p \<longrightarrow>
      set_ghost_indices ranges ghosts larger p = (Inl AlreadyFinalized, p))
   \<and> (set_ghost_indices ranges ghosts larger p = (Inr (), p') \<longrightarrow>
        ghost_indices_initialized p'
        \<and> set_ghost_indices ranges' ghosts' larger' p' = (Inl AlreadyFinalized, p'))"
  by (auto simp add: set_ghost_indices_def ghost_indices_initialized_def split: if_splits)

theorem set_ghost_indices_once_witness:
  "set_ghost_indices group_ranges {4, 7} {} process0_owned = (Inr (), process0)
   \<and> ghost_indices_initialized process0
   \<and> set_ghost_indices group_ranges {5} {} process0 = (Inl AlreadyFinalized, process0)"
proof -
  have "have_ghost_indices process0" by (simp add: process0_def)
  with set_ghost_indices_once [of process0 group_ranges "{5}" "{}"]
  have a: "set_ghost_indices group_ranges {5} {} process0 = (Inl AlreadyFinalized, process0)"
    by blast
  from set_ghost_indices_once [of process0_owned group_ranges "{4, 7}" "{}" process0] attach_process0
  have b: "ghost_indices_initialized process0" by blast
  from a b attach_process0 show ?thesis by simp
qed

subsection \<open>Compatible partitioners\<close>








end
